theory Spec2Isabelle
  imports Main "HOL-Library.Multiset"
begin

section \<open>JavaScript values as the script sees them\<close>

text \<open>
  The script \<^verbatim>\<open>.github/scripts/generate_curated_list.cjs\<close> works on values produced by
  \<^verbatim>\<open>JSON.parse\<close> and on object literals it builds itself. A value is one of the JSON shapes
  or \<^verbatim>\<open>undefined\<close> (the result of reading a property that is not there). An object is an
  association list of its own properties in insertion order; a property is looked up
  with \<open>map_of\<close>. Numbers are restricted to integers (identifiers, timestamps and counters
  of the upstream API are integers); strings are lists of 8-bit characters, read as the
  code units below 256. Of the console output only the "Queueing" lines are kept, since
  they are where the reason of a fetch shows.
\<close>

datatype jsval =
    JUndefined
  | JNull
  | JBool bool
  | JNum int
  | JStr string
  | JArr "jsval list"
  | JObj "(string \<times> jsval) list"

text \<open>What the script can throw or reject with.\<close>

datatype error =
    TypeError
  | SyntaxError
  | IOError
  | NetworkFailure
  | Error string

text \<open>Sequencing of a computation that may throw: the first exception wins.\<close>

definition bind_err :: "error + 'a \<Rightarrow> ('a \<Rightarrow> error + 'b) \<Rightarrow> error + 'b" where
  "bind_err x f = (case x of Inl e \<Rightarrow> Inl e | Inr v \<Rightarrow> f v)"

text \<open>\<^verbatim>\<open>!!v\<close>: the values that count as false are \<^verbatim>\<open>undefined\<close>, \<^verbatim>\<open>null\<close>,
  \<^verbatim>\<open>false\<close>, \<^verbatim>\<open>0\<close> and \<^verbatim>\<open>""\<close>; every array and every object is true, also the empty ones.\<close>

fun truthy :: "jsval \<Rightarrow> bool" where
  "truthy JUndefined = False"
| "truthy JNull = False"
| "truthy (JBool b) = b"
| "truthy (JNum n) = (n \<noteq> 0)"
| "truthy (JStr s) = (s \<noteq> [])"
| "truthy (JArr vs) = True"
| "truthy (JObj kvs) = True"

text \<open>\<^verbatim>\<open>v.k\<close> for the property names the script reads (none of them is a built-in
  property of strings or arrays): a \<^verbatim>\<open>TypeError\<close> on \<^verbatim>\<open>undefined\<close> and \<^verbatim>\<open>null\<close>,
  the stored value on an object that has the key, \<^verbatim>\<open>undefined\<close> otherwise.\<close>

fun get_prop :: "jsval \<Rightarrow> string \<Rightarrow> error + jsval" where
  "get_prop JUndefined k = Inl TypeError"
| "get_prop JNull k = Inl TypeError"
| "get_prop (JObj kvs) k = Inr (case map_of kvs k of None \<Rightarrow> JUndefined | Some v \<Rightarrow> v)"
| "get_prop v k = Inr JUndefined"

text \<open>\<^verbatim>\<open>a || b\<close> on values.\<close>

definition js_or :: "jsval \<Rightarrow> jsval \<Rightarrow> jsval" where
  "js_or a b = (if truthy a then a else b)"

text \<open>\<^verbatim>\<open>a === b\<close>: primitives compare by value; an array or object is only identical to
  itself, and the two sides the script compares always come from two different
  \<^verbatim>\<open>JSON.parse\<close> results, so they are never the same reference.\<close>

fun strict_eq :: "jsval \<Rightarrow> jsval \<Rightarrow> bool" where
  "strict_eq JUndefined JUndefined = True"
| "strict_eq JNull JNull = True"
| "strict_eq (JBool a) (JBool b) = (a = b)"
| "strict_eq (JNum a) (JNum b) = (a = b)"
| "strict_eq (JStr a) (JStr b) = (a = b)"
| "strict_eq a b = False"

subsection \<open>\<^verbatim>\<open>String(v)\<close> and \<^verbatim>\<open>trim\<close>\<close>

fun show_nat :: "nat \<Rightarrow> string" where
  "show_nat n =
     (if n < 10 then [''0123456789'' ! n]
      else show_nat (n div 10) @ [''0123456789'' ! (n mod 10)])"

definition show_int :: "int \<Rightarrow> string" where
  "show_int i = (if i < 0 then CHR ''-'' # show_nat (nat (- i)) else show_nat (nat i))"

fun join_comma :: "string list \<Rightarrow> string" where
  "join_comma [] = []"
| "join_comma [s] = s"
| "join_comma (s # t # ss) = s @ CHR '','' # join_comma (t # ss)"

text \<open>\<^verbatim>\<open>String(v)\<close>. An array is joined with commas, \<^verbatim>\<open>null\<close> and \<^verbatim>\<open>undefined\<close>
  elements contributing the empty string.\<close>

fun js_String :: "jsval \<Rightarrow> string"
  and js_elems :: "jsval list \<Rightarrow> string list" where
  "js_String JUndefined = ''undefined''"
| "js_String JNull = ''null''"
| "js_String (JBool b) = (if b then ''true'' else ''false'')"
| "js_String (JNum n) = show_int n"
| "js_String (JStr s) = s"
| "js_String (JArr vs) = join_comma (js_elems vs)"
| "js_String (JObj kvs) = ''[object Object]''"
| "js_elems [] = []"
| "js_elems (v # vs) =
     (if v = JUndefined \<or> v = JNull then [] else js_String v) # js_elems vs"

text \<open>White space of \<^verbatim>\<open>String.prototype.trim\<close> among the code units below 256: tab, line
  feed, vertical tab, form feed, carriage return, space and no-break space.\<close>

definition js_whitespace :: "char \<Rightarrow> bool" where
  "js_whitespace c \<longleftrightarrow>
     c \<in> set [CHR 0x09, CHR 0x0A, CHR 0x0B, CHR 0x0C, CHR 0x0D, CHR 0x20, CHR 0xA0]"

definition trim :: "string \<Rightarrow> string" where
  "trim s = rev (dropWhile js_whitespace (rev (dropWhile js_whitespace s)))"

section \<open>The upstream API\<close>

text \<open>
  What \<^verbatim>\<open>await fetch(url, { headers })\<close> followed by \<^verbatim>\<open>response.json()\<close> can give: the
  request is rejected (network error), or a response arrives with a status and a body
  that either parses as JSON or does not. The upstream is a parameter of the model: one
  reply for the "updated" list and one per identifier for each of the three per-record
  endpoints. A reply depends on the requested URL only.
\<close>

datatype reply =
    NetworkError
  | Response nat "jsval option"

record net =
  updatedList :: reply
  modInfo :: "string \<Rightarrow> reply"
  modFiles :: "string \<Rightarrow> reply"
  modChangelogs :: "string \<Rightarrow> reply"

text \<open>\<^verbatim>\<open>response.ok\<close>: a status from 200 to 299.\<close>

definition response_ok :: "nat \<Rightarrow> bool" where
  "response_ok status \<longleftrightarrow> 200 \<le> status \<and> status \<le> 299"

text \<open>\<^verbatim>\<open>await response.json()\<close>\<close>

definition response_json :: "jsval option \<Rightarrow> error + jsval" where
  "response_json body = (case body of None \<Rightarrow> Inl SyntaxError | Some v \<Rightarrow> Inr v)"

subsection \<open>\<^verbatim>\<open>fetchUpdatedModsList\<close>\<close>

fun updated_ids :: "jsval list \<Rightarrow> error + string list" where
  "updated_ids [] = Inr []"
| "updated_ids (m # ms) =
     bind_err (get_prop m ''mod_id'') (\<lambda>i.
     bind_err (updated_ids ms) (\<lambda>rest. Inr (js_String i # rest)))"

text \<open>The body of the \<^verbatim>\<open>try\<close> block; \<^verbatim>\<open>data.map\<close> is a \<^verbatim>\<open>TypeError\<close> unless the body
  is an array.\<close>

definition fetchUpdatedModsList_try :: "net \<Rightarrow> error + string list" where
  "fetchUpdatedModsList_try n =
     (case updatedList n of
        NetworkError \<Rightarrow> Inl NetworkFailure
      | Response status body \<Rightarrow>
          if \<not> response_ok status then Inr []
          else bind_err (response_json body) (\<lambda>data.
                 case data of JArr ms \<Rightarrow> updated_ids ms | _ \<Rightarrow> Inl TypeError))"

text \<open>The \<^verbatim>\<open>catch\<close> block logs and returns the empty list.\<close>

definition fetchUpdatedModsList :: "net \<Rightarrow> error + string list" where
  "fetchUpdatedModsList n =
     (case fetchUpdatedModsList_try n of Inl e \<Rightarrow> Inr [] | Inr ids \<Rightarrow> Inr ids)"

subsection \<open>\<^verbatim>\<open>fetchModDataFromNexus\<close>\<close>

text \<open>The body of the \<^verbatim>\<open>try\<close> block (lines 40-43, and 223-229 in the timestamp revision,
  which differs only in what it prints): a 429 throws \<^verbatim>\<open>new Error("RATE_LIMIT")\<close>, any
  other status outside 200-299 returns \<^verbatim>\<open>null\<close>, otherwise the parsed body is returned.\<close>

definition fetchModDataFromNexus_try :: "net \<Rightarrow> string \<Rightarrow> error + jsval" where
  "fetchModDataFromNexus_try n modId =
     (case modInfo n modId of
        NetworkError \<Rightarrow> Inl NetworkFailure
      | Response status body \<Rightarrow>
          if status = 429 then Inl (Error ''RATE_LIMIT'')
          else if \<not> response_ok status then Inr JNull
          else response_json body)"

text \<open>The \<^verbatim>\<open>catch (error)\<close> block around it (lines 44-47, 230-233) prints the message and
  returns \<^verbatim>\<open>null\<close>, whatever was thrown inside the \<^verbatim>\<open>try\<close>.\<close>

definition fetchModDataFromNexus :: "net \<Rightarrow> string \<Rightarrow> error + jsval" where
  "fetchModDataFromNexus n modId =
     (case fetchModDataFromNexus_try n modId of Inl e \<Rightarrow> Inr JNull | Inr v \<Rightarrow> Inr v)"

subsection \<open>\<^verbatim>\<open>fetchModFilesFromNexus\<close> and \<^verbatim>\<open>fetchModChangelogsFromNexus\<close>\<close>

definition fetchModFilesFromNexus_try :: "net \<Rightarrow> string \<Rightarrow> error + jsval" where
  "fetchModFilesFromNexus_try n modId =
     (case modFiles n modId of
        NetworkError \<Rightarrow> Inl NetworkFailure
      | Response status body \<Rightarrow>
          if \<not> response_ok status then Inr (JObj [(''files'', JArr [])])
          else response_json body)"

definition fetchModFilesFromNexus :: "net \<Rightarrow> string \<Rightarrow> error + jsval" where
  "fetchModFilesFromNexus n modId =
     (case fetchModFilesFromNexus_try n modId of
        Inl e \<Rightarrow> Inr (JObj [(''files'', JArr [])])
      | Inr v \<Rightarrow> Inr v)"

definition fetchModChangelogsFromNexus_try :: "net \<Rightarrow> string \<Rightarrow> error + jsval" where
  "fetchModChangelogsFromNexus_try n modId =
     (case modChangelogs n modId of
        NetworkError \<Rightarrow> Inl NetworkFailure
      | Response status body \<Rightarrow>
          if \<not> response_ok status then Inr (JObj [])
          else response_json body)"

definition fetchModChangelogsFromNexus :: "net \<Rightarrow> string \<Rightarrow> error + jsval" where
  "fetchModChangelogsFromNexus n modId =
     (case fetchModChangelogsFromNexus_try n modId of
        Inl e \<Rightarrow> Inr (JObj [])
      | Inr v \<Rightarrow> Inr v)"

section \<open>The signal-based revision of \<^verbatim>\<open>buildCuratedList\<close> (lines 1-205)\<close>

subsection \<open>Configuration and input files\<close>

definition BATCH_SIZE :: nat where
  "BATCH_SIZE = 5"

definition DELAY_BETWEEN_BATCHES :: nat where
  "DELAY_BETWEEN_BATCHES = 1000"

text \<open>A file as \<^verbatim>\<open>JSON.parse(await fs.readFile(path, 'utf8'))\<close> finds it: not readable,
  readable but not JSON, or a JSON value.\<close>

datatype jsonfile =
    Missing
  | Unparsable
  | Parsed jsval

definition readJson :: "jsonfile \<Rightarrow> error + jsval" where
  "readJson f =
     (case f of Missing \<Rightarrow> Inl IOError | Unparsable \<Rightarrow> Inl SyntaxError | Parsed v \<Rightarrow> Inr v)"

text \<open>The environment of one run: the API key, the curation file
  \<^verbatim>\<open>mod_warnings.json\<close>, the previous catalog \<^verbatim>\<open>curated/curated_list.json\<close> and the
  upstream.\<close>

record world =
  apiKey :: "string option"
  warningsFile :: jsonfile
  outputFile :: jsonfile
  upstream :: net

subsection \<open>Step 1: the manual list\<close>

text \<open>The filter predicate of line 83:
  \<^verbatim>\<open>mod => mod.id && String(mod.id).trim() !== ""\<close>.\<close>

definition not_template :: "jsval \<Rightarrow> error + bool" where
  "not_template md =
     bind_err (get_prop md ''id'') (\<lambda>i. Inr (truthy i \<and> trim (js_String i) \<noteq> []))"

fun filter_err :: "('a \<Rightarrow> error + bool) \<Rightarrow> 'a list \<Rightarrow> error + 'a list" where
  "filter_err p [] = Inr []"
| "filter_err p (x # xs) =
     bind_err (p x) (\<lambda>keep.
     bind_err (filter_err p xs) (\<lambda>rest. Inr (if keep then x # rest else rest)))"

text \<open>\<^verbatim>\<open>JSON.parse(warningsContent).filter(...)\<close>: only an array has \<^verbatim>\<open>filter\<close>.\<close>

definition load_modsToProcess :: "jsonfile \<Rightarrow> error + jsval list" where
  "load_modsToProcess f =
     bind_err (readJson f) (\<lambda>v.
       case v of JArr mods \<Rightarrow> filter_err not_template mods | _ \<Rightarrow> Inl TypeError)"

text \<open>\<^verbatim>\<open>new Map(modsToProcess.map(mod => [String(mod.id), mod]))\<close>: a later entry with
  the same key replaces an earlier one.\<close>

fun warnings_entries :: "jsval list \<Rightarrow> error + (string \<times> jsval) list" where
  "warnings_entries [] = Inr []"
| "warnings_entries (md # mods) =
     bind_err (get_prop md ''id'') (\<lambda>i.
     bind_err (warnings_entries mods) (\<lambda>rest. Inr ((js_String i, md) # rest)))"

definition new_Map :: "(string \<times> jsval) list \<Rightarrow> (string \<rightharpoonup> jsval)" where
  "new_Map kvs = map_of (rev kvs)"

definition make_warningsMap :: "jsval list \<Rightarrow> error + (string \<rightharpoonup> jsval)" where
  "make_warningsMap mods = bind_err (warnings_entries mods) (\<lambda>kvs. Inr (new_Map kvs))"

text \<open>\<^verbatim>\<open>map.get(key)\<close>\<close>

definition Map_get :: "(string \<rightharpoonup> jsval) \<Rightarrow> string \<Rightarrow> jsval" where
  "Map_get m k = (case m k of None \<Rightarrow> JUndefined | Some v \<Rightarrow> v)"

subsection \<open>Step 2: the previous cache\<close>

text \<open>\<^verbatim>\<open>oldJson.forEach(mod => previousDataMap.set(String(mod.mod_id), mod))\<close> inside a
  \<^verbatim>\<open>try\<close>: an exception (an element that is \<^verbatim>\<open>null\<close>) ends the loop and is caught, and the
  entries set so far stay in the map.\<close>

fun cache_forEach :: "jsval list \<Rightarrow> (string \<rightharpoonup> jsval) \<Rightarrow> (string \<rightharpoonup> jsval)" where
  "cache_forEach [] m = m"
| "cache_forEach (md # mods) m =
     (case get_prop md ''mod_id'' of
        Inl e \<Rightarrow> m
      | Inr i \<Rightarrow> cache_forEach mods (m(js_String i \<mapsto> md)))"

definition load_previousDataMap :: "jsonfile \<Rightarrow> (string \<rightharpoonup> jsval)" where
  "load_previousDataMap f =
     (case readJson f of
        Inl e \<Rightarrow> Map.empty
      | Inr oldJson \<Rightarrow> (case oldJson of JArr mods \<Rightarrow> cache_forEach mods Map.empty | _ \<Rightarrow> Map.empty))"

subsection \<open>Step 4: which mods need fetching\<close>

datatype reason = New | UpdatedUpstream | MissingData

datatype decision = Fetch reason | Reuse

text \<open>\<^verbatim>\<open>cachedMod && (!cachedMod.files || !cachedMod.changelogs)\<close>, as a truth value.\<close>

definition isMissingData :: "jsval \<Rightarrow> error + bool" where
  "isMissingData cachedMod =
     (if truthy cachedMod then
        bind_err (get_prop cachedMod ''files'') (\<lambda>files.
          if \<not> truthy files then Inr True
          else bind_err (get_prop cachedMod ''changelogs'') (\<lambda>changelogs.
                 Inr (\<not> truthy changelogs)))
      else Inr False)"

text \<open>Lines 110-121: the three tests, the branch taken and, for a queued mod, which of
  the three "Queueing" lines is printed (the \<^verbatim>\<open>if / else if / else\<close> of lines 119-121).\<close>

definition classify :: "(string \<rightharpoonup> jsval) \<Rightarrow> string set \<Rightarrow> string \<Rightarrow> error + decision" where
  "classify previousDataMap updatedSet modId =
     (let cachedMod = Map_get previousDataMap modId;
          isNew = \<not> truthy cachedMod;
          isUpdatedOnNexus = (modId \<in> updatedSet)
      in bind_err (isMissingData cachedMod) (\<lambda>missing.
           Inr (if isNew \<or> isUpdatedOnNexus \<or> missing then
                  (if isNew then Fetch New
                   else if isUpdatedOnNexus then Fetch UpdatedUpstream
                   else Fetch MissingData)
                else Reuse)))"

text \<open>\<^verbatim>\<open>{...v}\<close>: the own properties of an object; the indexed elements of an array or
  string; nothing for the other values.\<close>

fun spread :: "jsval \<Rightarrow> (string \<times> jsval) list" where
  "spread (JObj kvs) = kvs"
| "spread (JArr vs) = zip (map show_nat [0..<length vs]) vs"
| "spread (JStr s) = zip (map show_nat [0..<length s]) (map (\<lambda>c. JStr [c]) s)"
| "spread v = []"

text \<open>A later property of an object literal with a key that is already there replaces
  the value in place; a new key is appended.\<close>

fun obj_set :: "string \<Rightarrow> jsval \<Rightarrow> (string \<times> jsval) list \<Rightarrow> (string \<times> jsval) list" where
  "obj_set k v [] = [(k, v)]"
| "obj_set k v (p # kvs) = (if fst p = k then (k, v) # kvs else p # obj_set k v kvs)"

text \<open>\<^verbatim>\<open>warningInfo ? warningInfo.state : 'normal'\<close> and
  \<^verbatim>\<open>warningInfo ? warningInfo.warningMessage : ''\<close>\<close>

definition overlay_state :: "jsval \<Rightarrow> error + jsval" where
  "overlay_state warningInfo =
     (if truthy warningInfo then get_prop warningInfo ''state'' else Inr (JStr ''normal''))"

definition overlay_warningMessage :: "jsval \<Rightarrow> error + jsval" where
  "overlay_warningMessage warningInfo =
     (if truthy warningInfo then get_prop warningInfo ''warningMessage'' else Inr (JStr []))"

text \<open>Lines 124-129: the record pushed for a mod that is served from the cache.\<close>

definition reuse_record :: "(string \<rightharpoonup> jsval) \<Rightarrow> jsval \<Rightarrow> string \<Rightarrow> error + jsval" where
  "reuse_record warningsMap cachedMod modId =
     (let warningInfo = Map_get warningsMap modId
      in bind_err (overlay_state warningInfo) (\<lambda>st.
         bind_err (overlay_warningMessage warningInfo) (\<lambda>wm.
           Inr (JObj (obj_set ''warningMessage'' wm (obj_set ''state'' st (spread cachedMod)))))))"

text \<open>What the loop of lines 108-131 builds: the queue, the cache hits, and the
  "Queueing" lines printed.\<close>

record plan =
  modsToFetch :: "jsval list"
  cacheHits :: "jsval list"
  queueLog :: "(string \<times> reason) list"

fun classifyLoop ::
  "(string \<rightharpoonup> jsval) \<Rightarrow> (string \<rightharpoonup> jsval) \<Rightarrow> string set \<Rightarrow> jsval list \<Rightarrow> plan \<Rightarrow> error + plan"
where
  "classifyLoop warningsMap previousDataMap updatedSet [] p = Inr p"
| "classifyLoop warningsMap previousDataMap updatedSet (inputMod # rest) p =
     bind_err (get_prop inputMod ''id'') (\<lambda>i.
       let modId = js_String i in
       bind_err (classify previousDataMap updatedSet modId) (\<lambda>d.
         case d of
           Fetch r \<Rightarrow>
             classifyLoop warningsMap previousDataMap updatedSet rest
               (p\<lparr>modsToFetch := modsToFetch p @ [inputMod],
                  queueLog := queueLog p @ [(modId, r)]\<rparr>)
         | Reuse \<Rightarrow>
             bind_err (reuse_record warningsMap (Map_get previousDataMap modId) modId) (\<lambda>r.
               classifyLoop warningsMap previousDataMap updatedSet rest
                 (p\<lparr>cacheHits := cacheHits p @ [r]\<rparr>))))"

subsection \<open>Step 5: the queue, in batches\<close>

text \<open>
  What a run does to the outside is recorded as a sequence of events: a single API call,
  a group of API calls issued by the members of one batch (the members run concurrently,
  so the order inside a group carries no meaning), or a delay. The next event starts
  only when the previous one is over: \<^verbatim>\<open>await Promise.all(batchPromises)\<close> returns when
  every member has settled.
\<close>

datatype call = UpdatedList | Info string | Files string | Changelogs string

datatype event = Single call | Group "call list" | Delay nat

record run_state =
  finalResults :: "jsval list"
  apiCallCount :: nat
  events :: "event list"

definition info_fields :: "string list" where
  "info_fields =
     [''mod_id'', ''name'', ''summary'', ''version'', ''picture_url'', ''author'',
      ''mod_downloads'', ''endorsement_count'', ''updated_timestamp'',
      ''created_timestamp'', ''description'']"

fun read_props :: "jsval \<Rightarrow> string list \<Rightarrow> error + (string \<times> jsval) list" where
  "read_props v [] = Inr []"
| "read_props v (k # ks) =
     bind_err (get_prop v k) (\<lambda>x.
     bind_err (read_props v ks) (\<lambda>rest. Inr ((k, x) # rest)))"

text \<open>The object literal of lines 162-178.\<close>

definition merged_record :: "jsval \<Rightarrow> jsval \<Rightarrow> jsval \<Rightarrow> jsval \<Rightarrow> error + jsval" where
  "merged_record modData filesData changelogs warningInfo =
     bind_err (read_props modData info_fields) (\<lambda>info.
     bind_err (overlay_state warningInfo) (\<lambda>st.
     bind_err (overlay_warningMessage warningInfo) (\<lambda>wm.
     bind_err (get_prop filesData ''files'') (\<lambda>files.
       Inr (JObj (info @
              [(''state'', st), (''warningMessage'', wm),
               (''files'', js_or files (JArr [])),
               (''changelogs'', js_or changelogs (JObj []))]))))))"

text \<open>The async arrow function of lines 143-179, one per member of a batch: its value
  and the API calls it made (each followed by \<^verbatim>\<open>apiCallCount++\<close>).\<close>

definition batchPromise ::
  "net \<Rightarrow> (string \<rightharpoonup> jsval) \<Rightarrow> jsval \<Rightarrow> error + jsval \<times> call list"
where
  "batchPromise n warningsMap inputMod =
     bind_err (get_prop inputMod ''id'') (\<lambda>i.
       let modId = js_String i in
       bind_err (fetchModDataFromNexus n modId) (\<lambda>modData.
         if \<not> truthy modData then Inr (JNull, [Info modId])
         else
           bind_err (fetchModFilesFromNexus n modId) (\<lambda>filesData.
           bind_err (fetchModChangelogsFromNexus n modId) (\<lambda>changelogs.
           bind_err (merged_record modData filesData changelogs (Map_get warningsMap modId))
             (\<lambda>r. Inr (r, [Info modId, Files modId, Changelogs modId]))))))"

text \<open>\<^verbatim>\<open>await Promise.all(batchPromises)\<close>: the values in the order of the batch, or the
  rejection of a member (of the first that rejects in batch order; the only rejection a
  member can produce is a \<^verbatim>\<open>TypeError\<close>).\<close>

fun promiseAll :: "(error + 'a) list \<Rightarrow> error + 'a list" where
  "promiseAll [] = Inr []"
| "promiseAll (x # xs) =
     bind_err x (\<lambda>v. bind_err (promiseAll xs) (\<lambda>vs. Inr (v # vs)))"

text \<open>\<^verbatim>\<open>xs.slice(i, j)\<close> for \<open>i \<le> j\<close>\<close>

definition slice :: "nat \<Rightarrow> nat \<Rightarrow> 'a list \<Rightarrow> 'a list" where
  "slice i j xs = take (j - i) (drop i xs)"

text \<open>Lines 181-186 (357-363): the state after a batch has settled.\<close>

definition settle :: "(jsval \<times> call list) list \<Rightarrow> run_state \<Rightarrow> run_state" where
  "settle batchResults st =
     st\<lparr>finalResults := finalResults st @ filter truthy (map fst batchResults),
        apiCallCount := apiCallCount st + length (concat (map snd batchResults)),
        events := events st @ [Group (concat (map snd batchResults))]\<rparr>"

definition pause :: "nat \<Rightarrow> run_state \<Rightarrow> run_state" where
  "pause d st = st\<lparr>events := events st @ [Delay d]\<rparr>"

text \<open>
  The loop \<^verbatim>\<open>for (let i = 0; i < mods.length; i += BATCH_SIZE)\<close> of lines 140-187, which
  the timestamp revision has again at lines 290-364. The batch size \<open>B\<close>, the delay \<open>D\<close>
  and the member function are parameters. With \<open>B = 0\<close> and a non-empty queue the loop
  of the source never ends; here that is the value \<open>None\<close>.
\<close>

partial_function (option) batchLoop ::
  "nat \<Rightarrow> nat \<Rightarrow> (jsval \<Rightarrow> error + jsval \<times> call list) \<Rightarrow> jsval list \<Rightarrow> nat \<Rightarrow> run_state
     \<Rightarrow> (error + run_state) option"
where
  "batchLoop B D member mods i st =
     (if i < length mods then
        (case promiseAll (map member (slice i (i + B) mods)) of
           Inl e \<Rightarrow> Some (Inl e)
         | Inr batchResults \<Rightarrow>
             batchLoop B D member mods (i + B)
               (if i + B < length mods then pause D (settle batchResults st)
                else settle batchResults st))
      else Some (Inr st))"

declare batchLoop.simps [code]

text \<open>\<^verbatim>\<open>buildCuratedList\<close>, lines 77-200, up to the state that step 6 writes out; the
  directory creation and the write of lines 190-191 are taken to succeed. \<open>None\<close> is a
  run that never returns, \<open>Some (Inl e)\<close> a rejection with \<open>e\<close>.\<close>

definition buildCuratedList :: "world \<Rightarrow> (error + run_state) option" where
  "buildCuratedList w =
     (case load_modsToProcess (warningsFile w) of
        Inl e \<Rightarrow> Some (Inl e)
      | Inr modsToProcess \<Rightarrow>
     (case make_warningsMap modsToProcess of
        Inl e \<Rightarrow> Some (Inl e)
      | Inr warningsMap \<Rightarrow>
     (case fetchUpdatedModsList (upstream w) of
        Inl e \<Rightarrow> Some (Inl e)
      | Inr recentlyUpdatedIds \<Rightarrow>
     (case classifyLoop warningsMap (load_previousDataMap (outputFile w))
             (set recentlyUpdatedIds) modsToProcess
             \<lparr>modsToFetch = [], cacheHits = [], queueLog = []\<rparr> of
        Inl e \<Rightarrow> Some (Inl e)
      | Inr p \<Rightarrow>
          batchLoop BATCH_SIZE DELAY_BETWEEN_BATCHES
            (batchPromise (upstream w) warningsMap) (modsToFetch p) 0
            \<lparr>finalResults = cacheHits p, apiCallCount = 1,
             events = [Single UpdatedList]\<rparr>))))"

text \<open>The process: line 6 throws when the key is unset or empty; lines 202-205 turn a
  rejection of \<^verbatim>\<open>buildCuratedList()\<close> into \<^verbatim>\<open>process.exit(1)\<close>. The value is the exit
  status.\<close>

definition exit_status :: "(error + run_state) option \<Rightarrow> nat option" where
  "exit_status r =
     (case r of None \<Rightarrow> None | Some (Inl e) \<Rightarrow> Some 1 | Some (Inr st) \<Rightarrow> Some 0)"

definition script :: "world \<Rightarrow> nat option" where
  "script w =
     (case apiKey w of
        None \<Rightarrow> Some 1
      | Some k \<Rightarrow> if k = [] then Some 1 else exit_status (buildCuratedList w))"

subsection \<open>Step 6: the catalog as the next run reads it\<close>

text \<open>
  \<^verbatim>\<open>JSON.stringify(finalResults, null, 2)\<close> is written to \<^verbatim>\<open>curated/curated_list.json\<close>
  (line 191), and the next run parses that file (line 91). Serialising drops every
  property whose value is \<^verbatim>\<open>undefined\<close> and writes \<^verbatim>\<open>null\<close> for an \<^verbatim>\<open>undefined\<close> array
  element; everything else is read back as it was.
\<close>

fun json_norm :: "jsval \<Rightarrow> jsval"
  and json_elems :: "jsval list \<Rightarrow> jsval list"
  and json_fields :: "(string \<times> jsval) list \<Rightarrow> (string \<times> jsval) list" where
  "json_norm (JArr vs) = JArr (json_elems vs)"
| "json_norm (JObj kvs) = JObj (json_fields kvs)"
| "json_norm v = v"
| "json_elems [] = []"
| "json_elems (v # vs) = (if v = JUndefined then JNull else json_norm v) # json_elems vs"
| "json_fields [] = []"
| "json_fields ((k, v) # kvs) =
     (if v = JUndefined then json_fields kvs else (k, json_norm v) # json_fields kvs)"


section \<open>The timestamp-based revision of \<^verbatim>\<open>buildCuratedList\<close> (lines 205-381)\<close>

text \<open>
  The three fetch helpers of this revision (lines 219-261) are those above, up to what
  they print. There is no "updated" call, the manual list is taken as parsed (line 270,
  no filter), and every entry goes through the batch loop.
\<close>

text \<open>The condition of lines 311-315.\<close>

definition smart_cache_check :: "jsval \<Rightarrow> jsval \<Rightarrow> error + bool" where
  "smart_cache_check cachedMod modData =
     (if \<not> truthy cachedMod then Inr False
      else
        bind_err (get_prop cachedMod ''updated_timestamp'') (\<lambda>t.
        bind_err (get_prop modData ''updated_timestamp'') (\<lambda>t'.
          if \<not> strict_eq t t' then Inr False
          else
            bind_err (get_prop cachedMod ''files'') (\<lambda>files.
              if \<not> truthy files then Inr False
              else bind_err (get_prop cachedMod ''changelogs'') (\<lambda>changelogs.
                     Inr (truthy changelogs))))))"

text \<open>The object literal of lines 338-354.\<close>

definition merged_record_ts :: "jsval \<Rightarrow> jsval \<Rightarrow> jsval \<Rightarrow> jsval \<Rightarrow> error + jsval" where
  "merged_record_ts modData files changelogs warningInfo =
     bind_err (read_props modData info_fields) (\<lambda>info.
     bind_err (overlay_state warningInfo) (\<lambda>st.
     bind_err (overlay_warningMessage warningInfo) (\<lambda>wm.
       Inr (JObj (info @
              [(''state'', st), (''warningMessage'', wm),
               (''files'', files), (''changelogs'', changelogs)])))))"

text \<open>The async arrow function of lines 293-355.\<close>

definition batchPromise_ts ::
  "net \<Rightarrow> (string \<rightharpoonup> jsval) \<Rightarrow> (string \<rightharpoonup> jsval) \<Rightarrow> jsval \<Rightarrow> error + jsval \<times> call list"
where
  "batchPromise_ts n warningsMap previousDataMap inputMod =
     bind_err (get_prop inputMod ''id'') (\<lambda>i.
       let modId = js_String i in
       bind_err (fetchModDataFromNexus n modId) (\<lambda>modData.
         if \<not> truthy modData then Inr (JNull, [Info modId])
         else
           let cachedMod = Map_get previousDataMap modId in
           bind_err (smart_cache_check cachedMod modData) (\<lambda>hit.
             if hit then
               bind_err (get_prop cachedMod ''files'') (\<lambda>files.
               bind_err (get_prop cachedMod ''changelogs'') (\<lambda>changelogs.
               bind_err (merged_record_ts modData files changelogs
                           (Map_get warningsMap modId))
                 (\<lambda>r. Inr (r, [Info modId]))))
             else
               bind_err (fetchModFilesFromNexus n modId) (\<lambda>filesData.
               bind_err (get_prop filesData ''files'') (\<lambda>files.
               bind_err (fetchModChangelogsFromNexus n modId) (\<lambda>changelogs.
               bind_err (merged_record_ts modData files changelogs
                           (Map_get warningsMap modId))
                 (\<lambda>r. Inr (r, [Info modId, Files modId, Changelogs modId]))))))))"

text \<open>Line 270-271: \<^verbatim>\<open>modsToProcess.map\<close> is a \<^verbatim>\<open>TypeError\<close> unless the file holds an
  array.\<close>

definition load_modsToProcess_ts :: "jsonfile \<Rightarrow> error + jsval list" where
  "load_modsToProcess_ts f =
     bind_err (readJson f) (\<lambda>v. case v of JArr mods \<Rightarrow> Inr mods | _ \<Rightarrow> Inl TypeError)"

definition buildCuratedList_ts :: "world \<Rightarrow> (error + run_state) option" where
  "buildCuratedList_ts w =
     (case load_modsToProcess_ts (warningsFile w) of
        Inl e \<Rightarrow> Some (Inl e)
      | Inr modsToProcess \<Rightarrow>
     (case make_warningsMap modsToProcess of
        Inl e \<Rightarrow> Some (Inl e)
      | Inr warningsMap \<Rightarrow>
          batchLoop BATCH_SIZE DELAY_BETWEEN_BATCHES
            (batchPromise_ts (upstream w) warningsMap (load_previousDataMap (outputFile w)))
            modsToProcess 0
            \<lparr>finalResults = [], apiCallCount = 0, events = []\<rparr>))"

definition script_ts :: "world \<Rightarrow> nat option" where
  "script_ts w =
     (case apiKey w of
        None \<Rightarrow> Some 1
      | Some k \<Rightarrow> if k = [] then Some 1 else exit_status (buildCuratedList_ts w))"

section \<open>Vocabulary of the properties\<close>

text \<open>The values on which a property access throws.\<close>

definition nullish :: "jsval \<Rightarrow> bool" where
  "nullish v \<longleftrightarrow> v = JUndefined \<or> v = JNull"

text \<open>The value a record carries under a key, if it carries the key at all.\<close>

definition key_value :: "jsval \<Rightarrow> string \<Rightarrow> jsval option" where
  "key_value v k = (case v of JObj kvs \<Rightarrow> map_of kvs k | _ \<Rightarrow> None)"

text \<open>What \<^verbatim>\<open>v.k\<close> evaluates to when it does not throw.\<close>

definition prop_of :: "jsval \<Rightarrow> string \<Rightarrow> jsval" where
  "prop_of v k = (case key_value v k of None \<Rightarrow> JUndefined | Some x \<Rightarrow> x)"

text \<open>The completeness test both revisions apply to a cached record: the file-listing
  key and the changelog key are there and hold values that count as true.\<close>

definition complete :: "jsval \<Rightarrow> bool" where
  "complete v \<longleftrightarrow>
     (case key_value v ''files'' of
        None \<Rightarrow> False
      | Some f \<Rightarrow> truthy f \<and>
          (case key_value v ''changelogs'' of None \<Rightarrow> False | Some c \<Rightarrow> truthy c))"

text \<open>The identifier under which a tracked entry is looked up and fetched.\<close>

definition modId_of :: "jsval \<Rightarrow> string" where
  "modId_of inputMod = js_String (prop_of inputMod ''id'')"

text \<open>A fetch that failed: the request was rejected, the status is outside 200-299, or
  the body is not JSON.\<close>

definition fetch_failed :: "reply \<Rightarrow> bool" where
  "fetch_failed r =
     (case r of NetworkError \<Rightarrow> True | Response status body \<Rightarrow> \<not> response_ok status \<or> body = None)"

text \<open>The overlay value of a field: the entry's own value when the overlay has an entry,
  the default otherwise.\<close>

definition overlay_or :: "jsval \<Rightarrow> string \<Rightarrow> jsval \<Rightarrow> jsval" where
  "overlay_or warningInfo k d = (if truthy warningInfo then prop_of warningInfo k else d)"

text \<open>The fields of a freshly built record, in the order of the object literal.\<close>

definition fetched_fields :: "jsval \<Rightarrow> jsval \<Rightarrow> jsval \<Rightarrow> jsval \<Rightarrow> (string \<times> jsval) list" where
  "fetched_fields modData files changelogs warningInfo =
     map (\<lambda>k. (k, prop_of modData k)) info_fields @
       [(''state'', overlay_or warningInfo ''state'' (JStr ''normal'')),
        (''warningMessage'', overlay_or warningInfo ''warningMessage'' (JStr [])),
        (''files'', files), (''changelogs'', changelogs)]"

text \<open>The batches of a queue: consecutive groups of \<open>B\<close> entries, the last one possibly
  shorter.\<close>

function chunks :: "nat \<Rightarrow> 'a list \<Rightarrow> 'a list list" where
  "chunks B xs = (if B = 0 \<or> xs = [] then [] else take B xs # chunks B (drop B xs))"
  by pat_completeness auto
termination
  by (relation "measure (\<lambda>(B, xs). length xs)") auto

text \<open>A separator between any two neighbours of a list.\<close>

fun intersperse :: "'a \<Rightarrow> 'a list \<Rightarrow> 'a list" where
  "intersperse sep [] = []"
| "intersperse sep [x] = [x]"
| "intersperse sep (x # y # ys) = x # sep # intersperse sep (y # ys)"

text \<open>The event of one batch, and the events of a whole queue whose members resolved to
  the given results: one group per batch, one delay between two groups.\<close>

definition group_of :: "(jsval \<times> call list) list \<Rightarrow> event" where
  "group_of batchResults = Group (concat (map snd batchResults))"

definition schedule :: "nat \<Rightarrow> nat \<Rightarrow> (jsval \<times> call list) list \<Rightarrow> event list" where
  "schedule B D results = intersperse (Delay D) (map group_of (chunks B results))"

text \<open>The state after all batches of a queue have settled.\<close>

definition after_batches :: "nat \<Rightarrow> nat \<Rightarrow> (jsval \<times> call list) list \<Rightarrow> run_state \<Rightarrow> run_state" where
  "after_batches B D results st =
     st\<lparr>finalResults := finalResults st @ filter truthy (map fst results),
        apiCallCount := apiCallCount st + length (concat (map snd results)),
        events := events st @ schedule B D results\<rparr>"

text \<open>How many groups and how many delays a sequence of events has.\<close>

fun count_groups :: "event list \<Rightarrow> nat" where
  "count_groups [] = 0"
| "count_groups (Group cs # es) = Suc (count_groups es)"
| "count_groups (e # es) = count_groups es"

fun count_delays :: "event list \<Rightarrow> nat" where
  "count_delays [] = 0"
| "count_delays (Delay d # es) = Suc (count_delays es)"
| "count_delays (e # es) = count_delays es"

text \<open>The record pushed for a cache hit (lines 125-129).\<close>

definition reused :: "(string \<rightharpoonup> jsval) \<Rightarrow> jsval \<Rightarrow> string \<Rightarrow> jsval" where
  "reused warningsMap cachedMod modId =
     JObj (obj_set ''warningMessage''
             (overlay_or (Map_get warningsMap modId) ''warningMessage'' (JStr []))
          (obj_set ''state'' (overlay_or (Map_get warningsMap modId) ''state'' (JStr ''normal''))
             (spread cachedMod)))"

text \<open>The overlay map that line 85 builds from the tracked entries.\<close>

definition tracked_map :: "jsval list \<Rightarrow> (string \<rightharpoonup> jsval)" where
  "tracked_map mods = new_Map (map (\<lambda>e. (modId_of e, e)) mods)"


text \<open>The entry is queued for fetching.\<close>

definition must_fetch :: "(string \<rightharpoonup> jsval) \<Rightarrow> string set \<Rightarrow> jsval \<Rightarrow> bool" where
  "must_fetch previousDataMap updatedSet e \<longleftrightarrow>
     classify previousDataMap updatedSet (modId_of e) \<noteq> Inr Reuse"

text \<open>The "Queueing" lines of a list of entries.\<close>

definition queue_lines :: "(string \<rightharpoonup> jsval) \<Rightarrow> string set \<Rightarrow> jsval list \<Rightarrow> (string \<times> reason) list" where
  "queue_lines previousDataMap updatedSet mods =
     concat (map (\<lambda>e. case classify previousDataMap updatedSet (modId_of e) of
                         Inr (Fetch r) \<Rightarrow> [(modId_of e, r)] | _ \<Rightarrow> []) mods)"

text \<open>The API calls of a sequence of events.\<close>

fun calls_of :: "event list \<Rightarrow> call list" where
  "calls_of [] = []"
| "calls_of (Single c # es) = c # calls_of es"
| "calls_of (Group cs # es) = cs @ calls_of es"
| "calls_of (Delay d # es) = calls_of es"









section \<open>Concrete inputs\<close>

text \<open>One tracked mod, no cache, and an upstream that answers every info request with
  status 429.\<close>

definition world_429 :: world where
  "world_429 =
     \<lparr>apiKey = Some ''secret'',
      warningsFile = Parsed (JArr [JObj [(''id'', JStr ''10'')]]),
      outputFile = Missing,
      upstream = \<lparr>updatedList = Response 200 (Some (JArr [])),
                   modInfo = (\<lambda>i. Response 429 None),
                   modFiles = (\<lambda>i. Response 200 (Some (JObj [(''files'', JArr [])]))),
                   modChangelogs = (\<lambda>i. Response 200 (Some (JObj [])))\<rparr>\<rparr>"

text \<open>Cached records: one without the \<^verbatim>\<open>changelogs\<close> key, one whose \<^verbatim>\<open>files\<close> key holds
  \<^verbatim>\<open>null\<close>, one with both keys and empty values.\<close>

definition record_without_changelogs :: jsval where
  "record_without_changelogs =
     JObj [(''mod_id'', JNum 10), (''name'', JStr ''A''), (''updated_timestamp'', JNum 5),
           (''files'', JArr [])]"

definition record_null_files :: jsval where
  "record_null_files =
     JObj [(''mod_id'', JNum 20), (''name'', JStr ''B''), (''updated_timestamp'', JNum 7),
           (''files'', JNull), (''changelogs'', JObj [])]"

definition record_empty_values :: jsval where
  "record_empty_values =
     JObj [(''mod_id'', JNum 30), (''name'', JStr ''C''), (''updated_timestamp'', JNum 9),
           (''state'', JStr ''old''), (''files'', JArr []), (''changelogs'', JObj [])]"

definition cache_file :: jsonfile where
  "cache_file =
     Parsed (JArr [record_without_changelogs, record_null_files, record_empty_values])"

text \<open>Three tracked entries, the answer of the info endpoint for mod 10, and an upstream
  on which only that request succeeds.\<close>

definition entry10 :: jsval where
  "entry10 = JObj [(''id'', JStr ''10'')]"

definition entry20 :: jsval where
  "entry20 =
     JObj [(''id'', JNum 20), (''state'', JStr ''broken''), (''warningMessage'', JStr ''crashes'')]"

definition entry30 :: jsval where
  "entry30 =
     JObj [(''id'', JStr ''30''), (''state'', JStr ''outdated''),
           (''warningMessage'', JStr ''needs update'')]"

definition info10 :: jsval where
  "info10 =
     JObj [(''mod_id'', JNum 10), (''name'', JStr ''A''), (''version'', JStr ''1.2''),
           (''updated_timestamp'', JNum 5)]"

definition net_degraded :: net where
  "net_degraded =
     \<lparr>updatedList = Response 200 (Some (JArr [])),
      modInfo = (\<lambda>i. if i = ''10'' then Response 200 (Some info10) else Response 404 None),
      modFiles = (\<lambda>i. Response 500 None),
      modChangelogs = (\<lambda>i. NetworkError)\<rparr>"

definition state0 :: run_state where
  "state0 = \<lparr>finalResults = [], apiCallCount = 1, events = [Single UpdatedList]\<rparr>"

text \<open>A queue of five entries.\<close>

definition five_mods :: "jsval list" where
  "five_mods = [entry10, entry20, entry30, entry20, entry30]"








text \<open>A curation file of three blank template entries: an empty identifier, no identifier,
  and a whitespace-only identifier.\<close>

definition world_templates :: world where
  "world_templates =
     \<lparr>apiKey = Some ''secret'',
      warningsFile =
        Parsed (JArr [JObj [(''id'', JStr ''''), (''state'', JStr ''normal'')],
                      JObj [(''state'', JStr ''normal'')],
                      JObj [(''id'', JStr ''  '')]]),
      outputFile = Missing,
      upstream = net_degraded\<rparr>"





section \<open>Basic facts\<close>

lemma bind_err_Inl [simp]: "bind_err (Inl e) f = Inl e"
  by (simp add: bind_err_def)

lemma bind_err_Inr [simp]: "bind_err (Inr v) f = f v"
  by (simp add: bind_err_def)

lemma bind_err_eq_Inr: "bind_err x f = Inr y \<longleftrightarrow> (\<exists>v. x = Inr v \<and> f v = Inr y)"
  by (cases x) simp_all

lemma bind_err_eq_Inl:
  "bind_err x f = Inl e \<longleftrightarrow> x = Inl e \<or> (\<exists>v. x = Inr v \<and> f v = Inl e)"
  by (cases x) simp_all

lemma get_prop_cases:
  "get_prop v k = (if nullish v then Inl TypeError else Inr (prop_of v k))"
  by (cases v) (simp_all add: nullish_def prop_of_def key_value_def)

lemma truthy_not_nullish: "truthy v \<Longrightarrow> \<not> nullish v"
  by (auto simp: nullish_def)

lemma get_prop_truthy [simp]: "truthy v \<Longrightarrow> get_prop v k = Inr (prop_of v k)"
  by (simp add: get_prop_cases truthy_not_nullish)

lemma complete_iff:
  "complete v \<longleftrightarrow> truthy (prop_of v ''files'') \<and> truthy (prop_of v ''changelogs'')"
  by (simp add: complete_def prop_of_def split: option.splits)


section \<open>The Remote Fetcher never rejects\<close>

lemma fetchModDataFromNexus_total: "\<exists>v. fetchModDataFromNexus n modId = Inr v"
  by (simp add: fetchModDataFromNexus_def split: sum.splits)

lemma fetchModFilesFromNexus_total: "\<exists>v. fetchModFilesFromNexus n modId = Inr v"
  by (simp add: fetchModFilesFromNexus_def split: sum.splits)

lemma fetchModChangelogsFromNexus_total: "\<exists>v. fetchModChangelogsFromNexus n modId = Inr v"
  by (simp add: fetchModChangelogsFromNexus_def split: sum.splits)

lemma rate_limit_returns_null:
  "modInfo n modId = Response 429 body \<Longrightarrow>
     fetchModDataFromNexus_try n modId = Inl (Error ''RATE_LIMIT'')
     \<and> fetchModDataFromNexus n modId = Inr JNull"
  by (simp add: fetchModDataFromNexus_def fetchModDataFromNexus_try_def)

text \<open>
  C1. The claim: a 429 on the info fetch propagates out of the Remote Fetcher and ends
  the run with a non-zero exit status. The code throws \<^verbatim>\<open>new Error("RATE_LIMIT")\<close> inside
  the \<^verbatim>\<open>try\<close> block whose own \<^verbatim>\<open>catch\<close> returns \<^verbatim>\<open>null\<close>, so the 429 is handled like any
  other info failure: with one tracked mod and an upstream that answers 429, the helper
  returns \<^verbatim>\<open>null\<close>, the run completes with an empty catalog and the process exits with
  status 0, in both revisions.
\<close>

theorem rate_limit_is_swallowed:
  "fetchModDataFromNexus_try (upstream world_429) ''10'' = Inl (Error ''RATE_LIMIT'')
   \<and> fetchModDataFromNexus (upstream world_429) ''10'' = Inr JNull
   \<and> buildCuratedList world_429 =
       Some (Inr \<lparr>finalResults = [], apiCallCount = 2,
                  events = [Single UpdatedList, Group [Info ''10'']]\<rparr>)
   \<and> script world_429 = Some 0
   \<and> buildCuratedList_ts world_429 =
       Some (Inr \<lparr>finalResults = [], apiCallCount = 1, events = [Group [Info ''10'']]\<rparr>)
   \<and> script_ts world_429 = Some 0"
  by code_simp

section \<open>The Staleness Classifier\<close>

lemma isMissingData_eq: "isMissingData c = Inr (truthy c \<and> \<not> complete c)"
  by (simp add: isMissingData_def complete_iff)

lemma classify_eq:
  "classify previousDataMap updatedSet modId =
     Inr (if \<not> truthy (Map_get previousDataMap modId) then Fetch New
          else if modId \<in> updatedSet then Fetch UpdatedUpstream
          else if \<not> complete (Map_get previousDataMap modId) then Fetch MissingData
          else Reuse)"
  by (auto simp add: classify_def isMissingData_eq Let_def)

text \<open>
  C2, as stated: a cached record that lacks the file-listing key or the changelog key is
  classified \<^verbatim>\<open>missing-data\<close> whether or not its identifier is in the change signal. It
  fails: the record of mod 10 lacks \<^verbatim>\<open>changelogs\<close>, mod 10 is in the change signal, and the
  line printed is "Update detected on Nexus".
\<close>

theorem missing_data_in_signal_counterexample:
  "key_value record_without_changelogs ''changelogs'' = None
   \<and> Map_get (load_previousDataMap cache_file) ''10'' = record_without_changelogs
   \<and> classify (load_previousDataMap cache_file) (set [''10'']) ''10''
       = Inr (Fetch UpdatedUpstream)
   \<and> classify (load_previousDataMap cache_file) (set [''10'']) ''10''
       \<noteq> Inr (Fetch MissingData)"
  by code_simp

text \<open>
  C2, amended: a tracked entry whose cached record lacks the file-listing key or the
  changelog key is always queued for fetching; the reason is \<^verbatim>\<open>missing-data\<close> when its
  identifier is not in the change signal and \<^verbatim>\<open>updated-upstream\<close> when it is.
\<close>

theorem missing_key_forces_fetch:
  assumes "truthy (Map_get previousDataMap modId)"
    and "key_value (Map_get previousDataMap modId) ''files'' = None
         \<or> key_value (Map_get previousDataMap modId) ''changelogs'' = None"
  shows "classify previousDataMap updatedSet modId =
           Inr (Fetch (if modId \<in> updatedSet then UpdatedUpstream else MissingData))"
proof -
  from assms(2) have "\<not> complete (Map_get previousDataMap modId)"
    by (auto simp: complete_def split: option.splits)
  with assms(1) show ?thesis
    by (simp add: classify_eq)
qed

text \<open>The cached record of mod 10 has no \<^verbatim>\<open>changelogs\<close> key.\<close>

theorem missing_key_forces_fetch_witness:
  "truthy (Map_get (load_previousDataMap cache_file) ''10'')
   \<and> key_value (Map_get (load_previousDataMap cache_file) ''10'') ''changelogs'' = None
   \<and> classify (load_previousDataMap cache_file) {} ''10'' = Inr (Fetch MissingData)
   \<and> classify (load_previousDataMap cache_file) {''10''} ''10'' = Inr (Fetch UpdatedUpstream)"
proof -
  have h1: "truthy (Map_get (load_previousDataMap cache_file) ''10'')"
    by code_simp
  have h2: "key_value (Map_get (load_previousDataMap cache_file) ''10'') ''changelogs'' = None"
    by code_simp
  show ?thesis
    using h1 h2
      missing_key_forces_fetch [of "load_previousDataMap cache_file" "''10''" "{}"]
      missing_key_forces_fetch [of "load_previousDataMap cache_file" "''10''" "{''10''}"]
    by simp
qed

text \<open>
  C7, as stated: a cached record is complete exactly when it carries both keys, and a
  record without one of them is fetched with reason \<^verbatim>\<open>missing-data\<close>. It fails twice on
  one cache: the record of mod 20 carries both keys (\<^verbatim>\<open>files\<close> holds \<^verbatim>\<open>null\<close>) and is not in
  the change signal, yet it is queued as \<^verbatim>\<open>missing-data\<close>; the record of mod 10 lacks
  \<^verbatim>\<open>changelogs\<close> and is queued as \<^verbatim>\<open>updated-upstream\<close>.
\<close>

theorem complete_iff_keys_counterexample:
  "key_value record_null_files ''files'' = Some JNull
   \<and> key_value record_null_files ''changelogs'' = Some (JObj [])
   \<and> Map_get (load_previousDataMap cache_file) ''20'' = record_null_files
   \<and> classify (load_previousDataMap cache_file) (set [''10'']) ''20''
       = Inr (Fetch MissingData)
   \<and> key_value (Map_get (load_previousDataMap cache_file) ''10'') ''changelogs'' = None
   \<and> classify (load_previousDataMap cache_file) (set [''10'']) ''10''
       = Inr (Fetch UpdatedUpstream)"
  by code_simp

text \<open>
  C7, amended: a cached record counts as complete exactly when its file-listing key and
  its changelog key both hold a value that counts as true. Arrays and objects count as
  true also when empty, so a record with both keys and an empty listing and an empty map
  is complete; a record without one of the keys is not (nor is one whose key holds
  \<^verbatim>\<open>null\<close>, \<^verbatim>\<open>false\<close>, \<^verbatim>\<open>0\<close> or \<^verbatim>\<open>""\<close>). In the signal-based revision a cached record
  whose identifier is not in the change signal is reused when complete and queued as
  \<^verbatim>\<open>missing-data\<close> when not; one whose identifier is in the change signal is queued as
  \<^verbatim>\<open>updated-upstream\<close> either way. In the timestamp revision the cached files and
  changelogs are reused exactly when the timestamps are identical and the record is
  complete.
\<close>

theorem completeness_is_truthiness:
  assumes "Map_get previousDataMap modId = cachedMod" and "truthy cachedMod"
    and "truthy modData"
  shows
   "(complete cachedMod \<longleftrightarrow>
       (\<exists>f c. key_value cachedMod ''files'' = Some f \<and> truthy f
            \<and> key_value cachedMod ''changelogs'' = Some c \<and> truthy c))
    \<and> (key_value cachedMod ''files'' = Some (JArr [])
        \<and> key_value cachedMod ''changelogs'' = Some (JObj []) \<longrightarrow> complete cachedMod)
    \<and> (key_value cachedMod ''files'' = None \<or> key_value cachedMod ''changelogs'' = None
        \<longrightarrow> \<not> complete cachedMod)
    \<and> classify previousDataMap updatedSet modId =
        Inr (if modId \<in> updatedSet then Fetch UpdatedUpstream
             else if complete cachedMod then Reuse else Fetch MissingData)
    \<and> smart_cache_check cachedMod modData =
        Inr (strict_eq (prop_of cachedMod ''updated_timestamp'')
               (prop_of modData ''updated_timestamp'') \<and> complete cachedMod)"
proof (intro conjI)
  show "complete cachedMod \<longleftrightarrow>
       (\<exists>f c. key_value cachedMod ''files'' = Some f \<and> truthy f
            \<and> key_value cachedMod ''changelogs'' = Some c \<and> truthy c)"
    by (auto simp: complete_def split: option.splits)
  show "key_value cachedMod ''files'' = Some (JArr [])
        \<and> key_value cachedMod ''changelogs'' = Some (JObj []) \<longrightarrow> complete cachedMod"
    by (simp add: complete_def)
  show "key_value cachedMod ''files'' = None \<or> key_value cachedMod ''changelogs'' = None
        \<longrightarrow> \<not> complete cachedMod"
    by (auto simp: complete_def split: option.splits)
  show "classify previousDataMap updatedSet modId =
        Inr (if modId \<in> updatedSet then Fetch UpdatedUpstream
             else if complete cachedMod then Reuse else Fetch MissingData)"
    using assms by (simp add: classify_eq)
  show "smart_cache_check cachedMod modData =
        Inr (strict_eq (prop_of cachedMod ''updated_timestamp'')
               (prop_of modData ''updated_timestamp'') \<and> complete cachedMod)"
    using assms by (simp add: smart_cache_check_def complete_iff)
qed

text \<open>The cached record of mod 30 has both keys with empty values and is reused.\<close>

theorem completeness_is_truthiness_witness:
  "Map_get (load_previousDataMap cache_file) ''30'' = record_empty_values
   \<and> truthy record_empty_values
   \<and> key_value record_empty_values ''files'' = Some (JArr [])
   \<and> key_value record_empty_values ''changelogs'' = Some (JObj [])
   \<and> complete record_empty_values
   \<and> classify (load_previousDataMap cache_file) {} ''30'' = Inr Reuse
   \<and> smart_cache_check record_empty_values
        (JObj [(''mod_id'', JNum 30), (''updated_timestamp'', JNum 9)]) = Inr True"
proof -
  let ?m = "JObj [(''mod_id'', JNum 30), (''updated_timestamp'', JNum 9)]"
  have h1: "Map_get (load_previousDataMap cache_file) ''30'' = record_empty_values"
    by code_simp
  have h2: "truthy record_empty_values"
    by code_simp
  have h3: "truthy ?m"
    by simp
  have k: "key_value record_empty_values ''files'' = Some (JArr [])
           \<and> key_value record_empty_values ''changelogs'' = Some (JObj [])"
    by code_simp
  have t: "strict_eq (prop_of record_empty_values ''updated_timestamp'')
             (prop_of ?m ''updated_timestamp'')"
    by code_simp
  show ?thesis
    using completeness_is_truthiness [OF h1 h2 h3, of "{}"] h1 h2 k t
    by simp
qed

section \<open>The members of a batch\<close>

lemma overlay_state_eq: "overlay_state w = Inr (overlay_or w ''state'' (JStr ''normal''))"
  by (simp add: overlay_state_def overlay_or_def)

lemma overlay_warningMessage_eq: "overlay_warningMessage w = Inr (overlay_or w ''warningMessage'' (JStr []))"
  by (simp add: overlay_warningMessage_def overlay_or_def)

lemma read_props_eq: "\<not> nullish v \<Longrightarrow> read_props v ks = Inr (map (\<lambda>k. (k, prop_of v k)) ks)"
  by (induction ks) (simp_all add: get_prop_cases)


lemma fetch_failed_info: "fetch_failed (modInfo n i) \<Longrightarrow> fetchModDataFromNexus n i = Inr JNull"
  by (auto simp: fetch_failed_def fetchModDataFromNexus_def fetchModDataFromNexus_try_def response_json_def split: reply.splits sum.splits option.splits)



lemma merged_record_eq:
  "\<not> nullish modData \<Longrightarrow> \<not> nullish filesData \<Longrightarrow>
   merged_record modData filesData changelogs warningInfo =
     Inr (JObj (fetched_fields modData (js_or (prop_of filesData ''files'') (JArr [])) (js_or changelogs (JObj [])) warningInfo))"
  by (simp add: merged_record_def read_props_eq overlay_state_eq overlay_warningMessage_eq get_prop_cases fetched_fields_def)




lemma batchPromise_eq:
  assumes "\<not> nullish inputMod"
  shows "batchPromise n warningsMap inputMod =
    (case fetchModDataFromNexus n (modId_of inputMod) of Inl e \<Rightarrow> Inl e | Inr modData \<Rightarrow>
       if \<not> truthy modData then Inr (JNull, [Info (modId_of inputMod)])
       else (case fetchModFilesFromNexus n (modId_of inputMod) of Inl e \<Rightarrow> Inl e | Inr filesData \<Rightarrow>
             case fetchModChangelogsFromNexus n (modId_of inputMod) of Inl e \<Rightarrow> Inl e | Inr changelogs \<Rightarrow>
             if nullish filesData then Inl TypeError
             else Inr (JObj (fetched_fields modData (js_or (prop_of filesData ''files'') (JArr [])) (js_or changelogs (JObj [])) (Map_get warningsMap (modId_of inputMod))),
                       [Info (modId_of inputMod), Files (modId_of inputMod), Changelogs (modId_of inputMod)])))"
  using assms
  apply (simp add: batchPromise_def get_prop_cases modId_of_def Let_def split: sum.splits)
  apply (auto simp: merged_record_eq truthy_not_nullish)
  apply (simp add: merged_record_def read_props_eq truthy_not_nullish overlay_state_eq overlay_warningMessage_eq get_prop_cases)
  done



section \<open>The Batch Scheduler\<close>

declare chunks.simps [simp del]

lemma chunks_Nil [simp]: "chunks B [] = []"
  by (simp add: chunks.simps)

lemma chunks_nonempty: "0 < B \<Longrightarrow> xs \<noteq> [] \<Longrightarrow> chunks B xs = take B xs # chunks B (drop B xs)"
  by (subst chunks.simps) simp

lemma chunks_eq_Nil: "0 < B \<Longrightarrow> chunks B xs = [] \<longleftrightarrow> xs = []"
  by (subst chunks.simps) simp

lemma ceil_div_step:
  assumes "0 < (B::nat)" "0 < n"
  shows "(n + B - 1) div B = Suc ((n - B + B - 1) div B)"
proof (cases "n \<le> B")
  case True
  have "(n + B - 1) div B = 1"
  proof (rule div_nat_eqI)
    show "B * 1 \<le> n + B - 1" using assms by simp
    show "n + B - 1 < B * Suc 1" using assms True by simp
  qed
  moreover have "(n - B + B - 1) div B = 0" using True assms by simp
  ultimately show ?thesis by simp
next
  case False
  then obtain m where m: "n = Suc m" and "B \<le> m"
    by (cases n) auto
  then have e1: "n - B + B - 1 = m" by simp
  have e2: "n + B - 1 = m + B" using m by simp
  have e3: "(m + B) div B = Suc (m div B)" using assms(1) by (simp add: div_add_self2)
  show ?thesis by (simp only: e1 e2 e3)
qed

lemma length_chunks: "0 < B \<Longrightarrow> length (chunks B xs) = (length xs + B - 1) div B"
proof (induction B xs rule: chunks.induct)
  case (1 B xs)
  show ?case
  proof (cases "xs = []")
    case True
    with 1(2) show ?thesis by simp
  next
    case False
    with 1 have IH: "length (chunks B (drop B xs)) = (length xs - B + B - 1) div B"
      by simp
    have "(length xs + B - 1) div B = Suc ((length xs - B + B - 1) div B)"
      using False 1(2) by (intro ceil_div_step) simp_all
    moreover have "length (chunks B xs) = Suc (length (chunks B (drop B xs)))"
      using 1(2) False by (simp add: chunks_nonempty)
    ultimately show ?thesis
      using IH by (simp only:)
  qed
qed


lemma intersperse_Cons: "intersperse sep (x # xs) = x # (if xs = [] then [] else sep # intersperse sep xs)"
  by (cases xs) simp_all

lemma count_groups_schedule: "count_groups (intersperse (Delay D) (map group_of gs)) = length gs"
  by (induction gs) (simp_all add: intersperse_Cons group_of_def)

lemma count_delays_schedule: "count_delays (intersperse (Delay D) (map group_of gs)) = length gs - 1"
  by (induction gs) (auto simp add: intersperse_Cons group_of_def Suc_diff_Suc)

lemma intersperse_eq_Nil [simp]: "intersperse sep xs = [] \<longleftrightarrow> xs = []"
  by (cases xs) (simp_all add: intersperse_Cons)

lemma last_schedule: "gs \<noteq> [] \<Longrightarrow> last (intersperse (Delay D) (map group_of gs)) = group_of (last gs)"
  by (induction gs) (auto simp add: intersperse_Cons)

lemma promiseAll_append:
  "promiseAll (xs @ ys) =
     bind_err (promiseAll xs) (\<lambda>a. bind_err (promiseAll ys) (\<lambda>b. Inr (a @ b)))"
  by (induction xs) (auto simp: bind_err_def split: sum.splits)

lemma promiseAll_Inr_iff: "promiseAll xs = Inr rs \<longleftrightarrow> xs = map Inr rs"
  by (induction xs arbitrary: rs) (auto simp: bind_err_eq_Inr)

lemma promiseAll_length: "promiseAll xs = Inr rs \<Longrightarrow> length rs = length xs"
  by (simp add: promiseAll_Inr_iff)

lemma after_batches_Nil [simp]: "after_batches B D [] st = st"
  by (simp add: after_batches_def schedule_def)

lemma after_batches_step:
  assumes "0 < B" "rs1 \<noteq> []" "length rs1 \<le> B" "rs2 \<noteq> [] \<Longrightarrow> length rs1 = B"
  shows "after_batches B D rs2 (if rs2 \<noteq> [] then pause D (settle rs1 st) else settle rs1 st)
         = after_batches B D (rs1 @ rs2) st"
proof (cases "rs2 = []")
  case True
  with assms have "chunks B rs1 = [rs1]"
    by (simp add: chunks_nonempty)
  with True show ?thesis
    by (simp add: after_batches_def settle_def schedule_def group_of_def)
next
  case False
  with assms have "chunks B (rs1 @ rs2) = rs1 # chunks B rs2"
    by (simp add: chunks_nonempty)
  moreover have "chunks B rs2 \<noteq> []" using False assms(1) by (simp add: chunks_eq_Nil)
  ultimately show ?thesis using False
    by (simp add: after_batches_def settle_def pause_def schedule_def group_of_def intersperse_Cons)
qed

lemma batchLoop_eq:
  assumes "0 < B"
  shows "batchLoop B D member mods i st =
           Some (case promiseAll (map member (drop i mods)) of
                   Inl e \<Rightarrow> Inl e
                 | Inr rs \<Rightarrow> Inr (after_batches B D rs st))"
proof (induction "length mods - i" arbitrary: i st rule: less_induct)
  case less
  show ?case
  proof (cases "i < length mods")
    case False
    then show ?thesis
      by (subst batchLoop.simps) simp
  next
    case True
    let ?xs = "drop i mods"
    have split: "?xs = take B ?xs @ drop (i + B) mods"
      by (metis append_take_drop_id drop_drop add.commute)
    have sl: "slice i (i + B) mods = take B ?xs"
      by (simp add: slice_def)
    have IH: "\<And>st1. batchLoop B D member mods (i + B) st1 =
           Some (case promiseAll (map member (drop (i + B) mods)) of
                   Inl e \<Rightarrow> Inl e
                 | Inr rs \<Rightarrow> Inr (after_batches B D rs st1))"
      using less[of "i + B"] True assms by simp
    show ?thesis
    proof (cases "promiseAll (map member (take B ?xs))")
      case (Inl e)
      then have "promiseAll (map member ?xs) = Inl e"
        by (subst split) (simp add: promiseAll_append)
      with Inl True sl show ?thesis
        by (subst batchLoop.simps) simp
    next
      case (Inr rs1)
      then have "length rs1 = length (map member (take B ?xs))"
        by (rule promiseAll_length)
      then have len1: "length rs1 = min B (length mods - i)"
        by simp
      have ne1: "rs1 \<noteq> []" using len1 True assms by auto
      show ?thesis
      proof (cases "promiseAll (map member (drop (i + B) mods))")
        case (Inl e)
        then have "promiseAll (map member ?xs) = Inl e"
          using Inr by (subst split) (simp add: promiseAll_append)
        with Inl Inr True sl IH show ?thesis
          by (subst batchLoop.simps) simp
      next
        case rs2: (Inr rs2)
        then have "length rs2 = length (map member (drop (i + B) mods))"
          by (rule promiseAll_length)
        then have len2: "length rs2 = length mods - (i + B)"
          by simp
        have more: "i + B < length mods \<longleftrightarrow> rs2 \<noteq> []"
          using len2 by (cases rs2) auto
        have all: "promiseAll (map member ?xs) = Inr (rs1 @ rs2)"
          using Inr rs2 by (subst split) (simp add: promiseAll_append)
        have "after_batches B D rs2 (if rs2 \<noteq> [] then pause D (settle rs1 st) else settle rs1 st)
                = after_batches B D (rs1 @ rs2) st"
          using assms ne1 len1 more True by (intro after_batches_step) auto
        with Inr rs2 all True sl IH more show ?thesis
          by (subst batchLoop.simps) simp
      qed
    qed
  qed
qed

lemma schedule_last:
  assumes "0 < B" "rs \<noteq> []"
  shows "\<exists>g. last (schedule B D rs) = Group g"
proof -
  have "chunks B rs \<noteq> []" using assms by (simp add: chunks_eq_Nil)
  then show ?thesis
    by (simp add: schedule_def last_schedule group_of_def)
qed

text \<open>
  C8. With a batch size \<open>B > 0\<close> and a queue of \<open>N > 0\<close> must-fetch entries the loop
  returns. When it returns normally (every member resolved), the events it added are
  those of \<open>schedule\<close>: the groups of the consecutive batches of \<open>B\<close> entries, each group
  complete before the next event, with one delay between two groups. There are
  \<open>\<lceil>N / B\<rceil>\<close> groups and \<open>\<lceil>N / B\<rceil> - 1\<close> delays, and the last event is a group: no delay
  follows the final batch. The script runs the loop with \<open>B = BATCH_SIZE = 5\<close>.
\<close>

theorem batch_schedule:
  assumes "0 < B" and "mods \<noteq> []"
  shows "(\<exists>r. batchLoop B D member mods 0 st = Some r)
    \<and> (\<forall>st'. batchLoop B D member mods 0 st = Some (Inr st') \<longrightarrow>
         (\<exists>rs. map member mods = map Inr rs
              \<and> events st' = events st @ schedule B D rs
              \<and> count_groups (schedule B D rs) = (length mods + B - 1) div B
              \<and> count_delays (schedule B D rs) = (length mods + B - 1) div B - 1
              \<and> (\<exists>g. last (events st') = Group g)))"
proof (intro conjI allI impI)
  show "\<exists>r. batchLoop B D member mods 0 st = Some r"
    using assms(1) by (simp add: batchLoop_eq)
next
  fix st'
  assume run: "batchLoop B D member mods 0 st = Some (Inr st')"
  then obtain rs where rs: "promiseAll (map member mods) = Inr rs"
    and st': "st' = after_batches B D rs st"
    using assms(1) by (auto simp: batchLoop_eq split: sum.splits)
  from rs have m: "map member mods = map Inr rs"
    by (simp add: promiseAll_Inr_iff)
  then have len: "length rs = length mods"
    by (metis length_map)
  with assms(2) have ne: "rs \<noteq> []" by auto
  have ev: "events st' = events st @ schedule B D rs"
    by (simp add: st' after_batches_def)
  have g: "count_groups (schedule B D rs) = (length mods + B - 1) div B"
    using assms(1) len by (simp add: schedule_def count_groups_schedule length_chunks)
  have d: "count_delays (schedule B D rs) = (length mods + B - 1) div B - 1"
    using assms(1) len by (simp add: schedule_def count_delays_schedule length_chunks)
  have "schedule B D rs \<noteq> []"
    using assms(1) ne by (simp add: schedule_def chunks_eq_Nil)
  then have l: "\<exists>g. last (events st') = Group g"
    using schedule_last[OF assms(1) ne, of D] by (simp add: ev)
  from m ev g d l
  show "\<exists>rs. map member mods = map Inr rs
              \<and> events st' = events st @ schedule B D rs
              \<and> count_groups (schedule B D rs) = (length mods + B - 1) div B
              \<and> count_delays (schedule B D rs) = (length mods + B - 1) div B - 1
              \<and> (\<exists>g. last (events st') = Group g)"
    by blast
qed

text \<open>Five entries in batches of two: three groups, two delays.\<close>

theorem batch_schedule_witness:
  "\<exists>st'. batchLoop 2 1000 (batchPromise net_degraded Map.empty) five_mods 0 state0 = Some (Inr st')
     \<and> events st' =
         [Single UpdatedList,
          Group [Info ''10'', Files ''10'', Changelogs ''10'', Info ''20''], Delay 1000,
          Group [Info ''30'', Info ''20''], Delay 1000,
          Group [Info ''30'']]
     \<and> (\<exists>rs. events st' = events state0 @ schedule 2 1000 rs
            \<and> count_groups (schedule 2 1000 rs) = 3
            \<and> count_delays (schedule 2 1000 rs) = 2)"
proof -
  let ?run = "batchLoop 2 1000 (batchPromise net_degraded Map.empty) five_mods 0 state0"
  have ok: "(case ?run of Some (Inr st') \<Rightarrow>
               events st' =
                 [Single UpdatedList,
                  Group [Info ''10'', Files ''10'', Changelogs ''10'', Info ''20''], Delay 1000,
                  Group [Info ''30'', Info ''20''], Delay 1000,
                  Group [Info ''30'']]
             | _ \<Rightarrow> False)"
    by code_simp
  then obtain st' where run: "?run = Some (Inr st')"
    and ev: "events st' =
                 [Single UpdatedList,
                  Group [Info ''10'', Files ''10'', Changelogs ''10'', Info ''20''], Delay 1000,
                  Group [Info ''30'', Info ''20''], Delay 1000,
                  Group [Info ''30'']]"
    by (auto split: option.splits sum.splits)
  have h1: "0 < (2::nat)" by simp
  have h2: "five_mods \<noteq> []" by (simp add: five_mods_def)
  have n: "(length five_mods + 2 - 1) div 2 = 3" by (simp add: five_mods_def)
  from batch_schedule [OF h1 h2, of 1000 "batchPromise net_degraded Map.empty" state0] run
  obtain rs where rs: "events st' = events state0 @ schedule 2 1000 rs"
    "count_groups (schedule 2 1000 rs) = (length five_mods + 2 - 1) div 2"
    "count_delays (schedule 2 1000 rs) = (length five_mods + 2 - 1) div 2 - 1"
    by blast
  have "\<exists>rs. events st' = events state0 @ schedule 2 1000 rs
            \<and> count_groups (schedule 2 1000 rs) = 3
            \<and> count_delays (schedule 2 1000 rs) = 2"
    using rs n by (intro exI[of _ rs]) simp
  with run ev show ?thesis
    by blast
qed

section \<open>The Merger\<close>

lemma reuse_record_eq: "reuse_record warningsMap cachedMod modId = Inr (reused warningsMap cachedMod modId)"
  by (simp add: reuse_record_def reused_def overlay_state_eq overlay_warningMessage_eq Let_def)








section \<open>A run of the signal-based revision\<close>

lemma filter_err_Inr:
  "filter_err p xs = Inr ys \<Longrightarrow>
     ys = filter (\<lambda>x. p x = Inr True) xs \<and> (\<forall>x\<in>set xs. \<exists>b. p x = Inr b)"
  by (induction xs arbitrary: ys) (auto simp: bind_err_eq_Inr)

lemma not_template_Inr: "not_template e = Inr b \<Longrightarrow> \<not> nullish e"
  by (auto simp: not_template_def get_prop_cases split: if_splits)

lemma not_template_True:
  "not_template e = Inr True \<longleftrightarrow>
     \<not> nullish e \<and> truthy (prop_of e ''id'') \<and> trim (modId_of e) \<noteq> []"
  by (auto simp: not_template_def get_prop_cases modId_of_def split: if_splits)

lemma load_modsToProcess_Inr:
  assumes "load_modsToProcess f = Inr mods"
  shows "\<exists>xs. f = Parsed (JArr xs) \<and> mods = filter (\<lambda>e. not_template e = Inr True) xs"
    and "\<forall>e\<in>set mods. \<not> nullish e"
proof -
  from assms obtain v where v: "readJson f = Inr v"
    and r: "(case v of JArr mods \<Rightarrow> filter_err not_template mods | _ \<Rightarrow> Inl TypeError) = Inr mods"
    by (auto simp: load_modsToProcess_def bind_err_eq_Inr)
  from r obtain xs where xs: "v = JArr xs" and fe: "filter_err not_template xs = Inr mods"
    by (cases v) auto
  from v xs have f: "f = Parsed (JArr xs)"
    by (cases f) (auto simp: readJson_def)
  from filter_err_Inr[OF fe] have m: "mods = filter (\<lambda>e. not_template e = Inr True) xs"
    by simp
  from f m show "\<exists>xs. f = Parsed (JArr xs) \<and> mods = filter (\<lambda>e. not_template e = Inr True) xs"
    by blast
  from m show "\<forall>e\<in>set mods. \<not> nullish e"
    by (auto simp: not_template_True)
qed

lemma warnings_entries_eq:
  "warnings_entries mods =
     (if \<exists>e\<in>set mods. nullish e then Inl TypeError
      else Inr (map (\<lambda>e. (modId_of e, e)) mods))"
  by (induction mods) (auto simp: get_prop_cases modId_of_def)

lemma make_warningsMap_eq:
  "make_warningsMap mods =
     (if \<exists>e\<in>set mods. nullish e then Inl TypeError else Inr (tracked_map mods))"
  by (simp add: make_warningsMap_def warnings_entries_eq tracked_map_def)

lemma fetchUpdatedModsList_total: "\<exists>ids. fetchUpdatedModsList n = Inr ids"
  by (simp add: fetchUpdatedModsList_def split: sum.splits)

lemma classifyLoop_eq:
  "\<forall>e\<in>set mods. \<not> nullish e \<Longrightarrow>
   classifyLoop wm pm us mods p =
     Inr (p\<lparr>modsToFetch := modsToFetch p @ filter (must_fetch pm us) mods,
            cacheHits := cacheHits p @
              map (\<lambda>e. reused wm (Map_get pm (modId_of e)) (modId_of e))
                (filter (\<lambda>e. \<not> must_fetch pm us e) mods),
            queueLog := queueLog p @ queue_lines pm us mods\<rparr>)"
proof (induction mods arbitrary: p)
  case Nil
  then show ?case by (simp add: queue_lines_def)
next
  case (Cons e mods)
  then have ne: "\<not> nullish e" and rest: "\<forall>e\<in>set mods. \<not> nullish e"
    by simp_all
  obtain d where d: "classify pm us (modId_of e) = Inr d"
    by (simp add: classify_eq)
  show ?case
  proof (cases d)
    case (Fetch r)
    with d ne show ?thesis
      by (simp add: get_prop_cases modId_of_def[symmetric] Cons.IH[OF rest] must_fetch_def
          queue_lines_def Let_def)
  next
    case Reuse
    with d ne show ?thesis
      by (simp add: get_prop_cases modId_of_def[symmetric] Cons.IH[OF rest] must_fetch_def
          queue_lines_def reuse_record_eq Let_def)
  qed
qed

lemma buildCuratedList_eq:
  assumes "load_modsToProcess (warningsFile w) = Inr mods"
    and "fetchUpdatedModsList (upstream w) = Inr ids"
  shows "buildCuratedList w =
     Some (case promiseAll (map (batchPromise (upstream w) (tracked_map mods))
                  (filter (must_fetch (load_previousDataMap (outputFile w)) (set ids)) mods)) of
             Inl e \<Rightarrow> Inl e
           | Inr rs \<Rightarrow>
               Inr (after_batches BATCH_SIZE DELAY_BETWEEN_BATCHES rs
                 \<lparr>finalResults =
                    map (\<lambda>e. reused (tracked_map mods)
                               (Map_get (load_previousDataMap (outputFile w)) (modId_of e))
                               (modId_of e))
                      (filter (\<lambda>e. \<not> must_fetch (load_previousDataMap (outputFile w)) (set ids) e)
                         mods),
                  apiCallCount = 1, events = [Single UpdatedList]\<rparr>))"
proof -
  have nn: "\<forall>e\<in>set mods. \<not> nullish e"
    using load_modsToProcess_Inr(2)[OF assms(1)] .
  then have wm: "make_warningsMap mods = Inr (tracked_map mods)"
    by (auto simp: make_warningsMap_eq)
  have B: "0 < BATCH_SIZE" by (simp add: BATCH_SIZE_def)
  show ?thesis
    by (simp add: buildCuratedList_def assms wm classifyLoop_eq[OF nn] batchLoop_eq[OF B]
        split: sum.splits)
qed

text \<open>A run completes unless the curation file is unusable or the files endpoint answers
  a request with a body that is literally \<^verbatim>\<open>null\<close>.\<close>

lemma promiseAll_all_Inr:
  "\<forall>x\<in>set xs. \<exists>y. member x = Inr y \<Longrightarrow> \<exists>rs. promiseAll (map member xs) = Inr rs"
proof (induction xs)
  case Nil
  then show ?case by simp
next
  case (Cons x xs)
  then obtain y rs where "member x = Inr y" "promiseAll (map member xs) = Inr rs"
    by auto
  then show ?case by simp
qed

lemma batchPromise_resolves:
  assumes "\<not> nullish e"
    and "\<forall>filesData. fetchModFilesFromNexus n (modId_of e) = Inr filesData \<longrightarrow> \<not> nullish filesData"
  shows "\<exists>y. batchPromise n wm e = Inr y"
proof -
  obtain modData where m: "fetchModDataFromNexus n (modId_of e) = Inr modData"
    using fetchModDataFromNexus_total by blast
  obtain filesData where f: "fetchModFilesFromNexus n (modId_of e) = Inr filesData"
    using fetchModFilesFromNexus_total by blast
  obtain changelogs where c: "fetchModChangelogsFromNexus n (modId_of e) = Inr changelogs"
    using fetchModChangelogsFromNexus_total by blast
  from assms(2) f have "\<not> nullish filesData" by simp
  with assms(1) m f c show ?thesis
    by (simp add: batchPromise_eq)
qed

lemma signal_run_completes:
  assumes "load_modsToProcess (warningsFile w) = Inr mods"
    and "\<forall>i filesData. fetchModFilesFromNexus (upstream w) i = Inr filesData \<longrightarrow> \<not> nullish filesData"
  shows "\<exists>st. buildCuratedList w = Some (Inr st)"
proof -
  obtain ids where ids: "fetchUpdatedModsList (upstream w) = Inr ids"
    using fetchUpdatedModsList_total by blast
  have nn: "\<forall>e\<in>set mods. \<not> nullish e"
    using load_modsToProcess_Inr(2)[OF assms(1)] .
  let ?queue = "filter (must_fetch (load_previousDataMap (outputFile w)) (set ids)) mods"
  have "\<forall>e\<in>set ?queue. \<exists>y. batchPromise (upstream w) (tracked_map mods) e = Inr y"
  proof
    fix e assume "e \<in> set ?queue"
    with nn have "\<not> nullish e" by simp
    moreover have "\<forall>filesData. fetchModFilesFromNexus (upstream w) (modId_of e) = Inr filesData
                      \<longrightarrow> \<not> nullish filesData"
      using assms(2) by blast
    ultimately show "\<exists>y. batchPromise (upstream w) (tracked_map mods) e = Inr y"
      by (rule batchPromise_resolves)
  qed
  then obtain rs where
    "promiseAll (map (batchPromise (upstream w) (tracked_map mods)) ?queue) = Inr rs"
    using promiseAll_all_Inr by blast
  then show ?thesis
    unfolding buildCuratedList_eq[OF assms(1) ids] by simp
qed







section \<open>The API calls of a run\<close>

lemma calls_of_append [simp]: "calls_of (xs @ ys) = calls_of xs @ calls_of ys"
  by (induction xs rule: calls_of.induct) simp_all










lemma load_modsToProcess_ts_Inr:
  "load_modsToProcess_ts f = Inr mods \<longleftrightarrow> f = Parsed (JArr mods)"
  by (cases f) (auto simp: load_modsToProcess_ts_def readJson_def split: jsval.splits)








section \<open>Blank template entries\<close>

text \<open>The signal-based revision tracks only entries whose identifier counts as true and
  is not blank after trimming.\<close>

lemma tracked_entries_not_blank:
  assumes "load_modsToProcess f = Inr mods" and "e \<in> set mods"
  shows "truthy (prop_of e ''id'') \<and> trim (modId_of e) \<noteq> []"
proof -
  from load_modsToProcess_Inr(1)[OF assms(1)] assms(2)
  have "not_template e = Inr True" by auto
  then show ?thesis by (simp add: not_template_True)
qed

text \<open>
  C6. The claim: an entry whose identifier is absent, empty or whitespace-only is
  discarded before classification and never fetched. The signal-based revision does so
  (the filter of line 83). The timestamp revision takes the parsed file as it is (line
  270): on a curation file of three blank templates it issues an info request for each of
  \<^verbatim>\<open>""\<close>, \<^verbatim>\<open>"undefined"\<close> and \<^verbatim>\<open>"  "\<close>, where the signal-based revision on the same file
  tracks nothing and makes only the "updated" call.
\<close>

theorem templates_are_fetched_by_timestamp_revision:
  "load_modsToProcess (warningsFile world_templates) = Inr []
   \<and> buildCuratedList world_templates =
       Some (Inr \<lparr>finalResults = [], apiCallCount = 1, events = [Single UpdatedList]\<rparr>)
   \<and> buildCuratedList_ts world_templates =
       Some (Inr \<lparr>finalResults = [], apiCallCount = 3,
                  events = [Group [Info '''', Info ''undefined'', Info ''  '']]\<rparr>)"
  by code_simp

section \<open>A second run over the catalog of the first\<close>




lemma json_norm_eq_Null [simp]: "json_norm v = JNull \<longleftrightarrow> v = JNull"
  by (cases v) simp_all


lemma truthy_json_norm [simp]: "truthy (json_norm v) = truthy v"
  by (cases v) simp_all

lemma json_fields_key: "(k, v) \<in> set (json_fields kvs) \<Longrightarrow> k \<in> fst ` set kvs"
proof (induction kvs)
  case Nil
  then show ?case by simp
next
  case (Cons p kvs)
  obtain k' v' where p: "p = (k', v')" by (cases p)
  show ?case
  proof (cases "(k, v) \<in> set (json_fields kvs)")
    case True
    with Cons.IH show ?thesis by simp
  next
    case False
    with Cons.prems p have "k = k'" by (auto split: if_splits)
    with p show ?thesis by simp
  qed
qed

lemma fst_json_fields: "set (map fst (json_fields kvs)) \<subseteq> set (map fst kvs)"
  using json_fields_key by fastforce

lemma distinct_json_fields: "distinct (map fst kvs) \<Longrightarrow> distinct (map fst (json_fields kvs))"
proof (induction kvs)
  case Nil
  then show ?case by simp
next
  case (Cons p kvs)
  obtain k v where p: "p = (k, v)" by (cases p)
  from Cons p have "k \<notin> fst ` set kvs" by auto
  with fst_json_fields[of kvs] have "k \<notin> fst ` set (json_fields kvs)" by auto
  with Cons p show ?case by auto
qed



lemma json_fields_append [simp]: "json_fields (xs @ ys) = json_fields xs @ json_fields ys"
  by (induction xs) auto































end
